theory Spec2Isabelle
  imports Main "HOL-Library.Word"
begin

section \<open>Covariance kernels of george: \<^verbatim>\<open>templates/kernels.h\<close>\<close>

text \<open>
  The header declares a base class \<^verbatim>\<open>Kernel\<close>, the binary operators \<^verbatim>\<open>Sum\<close> and
  \<^verbatim>\<open>Product\<close> built on \<^verbatim>\<open>Operator\<close>, and a template that generates one leaf class per
  kernel specification: a stationary leaf over a \<^verbatim>\<open>Metric\<close>, or an additive leaf over a
  \<^verbatim>\<open>Subspace\<close>.

  Conventions of the embedding.
  \<^item> \<^verbatim>\<open>unsigned\<close> is \<open>'w word\<close> for an arbitrary width \<open>'w\<close>: \<open>+\<close> and \<open>-\<close> wrap,
    \<open><\<close> is the unsigned comparison. The types of the objects take the type of
    \<^verbatim>\<open>unsigned\<close> as their parameter \<open>'u\<close>; every operation fixes it to \<open>'w word\<close>.
  \<^item> \<^verbatim>\<open>double\<close> is a type \<open>'d\<close> with \<open>0\<close>, \<open>+\<close> and \<open>*\<close> and no law at all, so every
    result holds for IEEE arithmetic as well as for the reals. Equality is identity of
    the computed value.
  \<^item> \<^verbatim>\<open>const double* x\<close> is a function from offsets to values: \<^verbatim>\<open>x[j]\<close> is \<open>x j\<close>.
  \<^item> \<^verbatim>\<open>double* grad\<close> is an address \<open>g\<close> into a store of doubles; \<^verbatim>\<open>grad[i]\<close> is the
    cell \<open>g + i\<close> and \<^verbatim>\<open>&(grad[n])\<close> is the address \<open>g + n\<close>. The input vectors are not
    part of that store.
  \<^item> A method that mutates the object returns the updated object.
  \<^item> Vectors and the store are total: a read or a write outside the caller's arrays,
    undefined behaviour in C++, is a read or a write of some cell here. No result below
    depends on such a cell.
\<close>

type_synonym 'd vec = "nat \<Rightarrow> 'd"
type_synonym 'd store = "nat \<Rightarrow> 'd"

subsection \<open>The collaborators declared in \<^verbatim>\<open>metrics.h\<close> and \<^verbatim>\<open>subspace.h\<close>\<close>

text \<open>
  Modelled from the spec: the class \<^verbatim>\<open>Metric\<close> of \<^verbatim>\<open>metrics.h\<close>, which is not part of
  the sources at hand. A metric is an object with a private state \<open>'m\<close> and the six
  methods of section 6 of the specification. Nothing is assumed of them, except that
  \<^verbatim>\<open>gradient(x1, x2, out)\<close> writes one partial derivative into each of \<open>out[0]\<close>, ...,
  \<open>out[size() - 1]\<close> and touches no other cell.
\<close>

record ('u, 'm, 'd) metric =
  m_state :: 'm
  m_value :: "'m \<Rightarrow> 'd vec \<Rightarrow> 'd vec \<Rightarrow> 'd"
  m_gradient :: "'m \<Rightarrow> 'd vec \<Rightarrow> 'd vec \<Rightarrow> nat \<Rightarrow> 'd"
  m_size :: "'m \<Rightarrow> 'u"
  m_get_ndim :: "'m \<Rightarrow> 'u"
  m_get_parameter :: "'m \<Rightarrow> 'u \<Rightarrow> 'd"
  m_set_parameter :: "'m \<Rightarrow> 'u \<Rightarrow> 'd \<Rightarrow> 'm"

definition Metric_value :: "('w::len word, 'm, 'd) metric \<Rightarrow> 'd vec \<Rightarrow> 'd vec \<Rightarrow> 'd" where
  "Metric_value M x1 x2 = m_value M (m_state M) x1 x2"

definition Metric_size :: "('w::len word, 'm, 'd) metric \<Rightarrow> 'w word" where
  "Metric_size M = m_size M (m_state M)"

definition Metric_get_ndim :: "('w::len word, 'm, 'd) metric \<Rightarrow> 'w word" where
  "Metric_get_ndim M = m_get_ndim M (m_state M)"

definition Metric_get_parameter :: "('w::len word, 'm, 'd) metric \<Rightarrow> 'w word \<Rightarrow> 'd" where
  "Metric_get_parameter M i = m_get_parameter M (m_state M) i"

definition Metric_set_parameter ::
  "('w::len word, 'm, 'd) metric \<Rightarrow> 'w word \<Rightarrow> 'd \<Rightarrow> ('w word, 'm, 'd) metric" where
  "Metric_set_parameter M i v = M\<lparr>m_state := m_set_parameter M (m_state M) i v\<rparr>"

definition Metric_gradient ::
  "('w::len word, 'm, 'd) metric \<Rightarrow> 'd vec \<Rightarrow> 'd vec \<Rightarrow> nat \<Rightarrow> 'd store \<Rightarrow> 'd store" where
  "Metric_gradient M x1 x2 g s =
     (\<lambda>a. if g \<le> a \<and> a < g + unat (Metric_size M)
           then m_gradient M (m_state M) x1 x2 (a - g) else s a)"

text \<open>
  Modelled from the spec: the class \<^verbatim>\<open>Subspace\<close> of \<^verbatim>\<open>subspace.h\<close>, which is not part of
  the sources at hand: the number of selected axes, the selected axes and the length of
  the feature vectors. The kernels only read it.
\<close>

record 'u subspace =
  get_naxes :: "'u"
  get_axis :: "'u \<Rightarrow> 'u"
  sub_get_ndim :: "'u"

subsection \<open>The formulas a kernel specification supplies\<close>

text \<open>
  The template is instantiated with \<^verbatim>\<open>spec.value\<close>, \<^verbatim>\<open>spec.grad[param]\<close> and, for a
  stationary kernel, \<^verbatim>\<open>spec.grad["r2"]\<close>. They are parameters here. The hyperparameters
  \<^verbatim>\<open>param_<name>_\<close> of an instance are the list of their values in declaration order, and
  \<^verbatim>\<open><name>_gradient\<close> is addressed by the position of \<^verbatim>\<open><name>\<close> in that order.
\<close>

record 'd stationary_spec =
  s_get_value :: "'d list \<Rightarrow> 'd \<Rightarrow> 'd"
  s_param_gradient :: "nat \<Rightarrow> 'd list \<Rightarrow> 'd \<Rightarrow> 'd"
  s_radial_gradient :: "'d list \<Rightarrow> 'd \<Rightarrow> 'd"

record 'd additive_spec =
  a_get_value :: "'d list \<Rightarrow> 'd \<Rightarrow> 'd \<Rightarrow> 'd"
  a_param_gradient :: "nat \<Rightarrow> 'd list \<Rightarrow> 'd \<Rightarrow> 'd \<Rightarrow> 'd"

subsection \<open>Kernel objects\<close>

text \<open>
  \<open>Kernel\<close> is an instance of the base class itself. \<^verbatim>\<open>Operator\<close> adds no \<^verbatim>\<open>value\<close> or
  \<^verbatim>\<open>gradient\<close> of its own; \<open>Sum\<close> and \<open>Product\<close> inherit its \<^verbatim>\<open>size\<close>, \<^verbatim>\<open>get_ndim\<close>,
  \<^verbatim>\<open>get_parameter\<close> and \<^verbatim>\<open>set_parameter\<close>, which are written out for both below. An
  object of class \<^verbatim>\<open>Operator\<close> that is neither a \<open>Sum\<close> nor a \<open>Product\<close> is not modelled.
\<close>

datatype ('u, 'm, 'd) kernel =
    Kernel
  | Sum "('u, 'm, 'd) kernel" "('u, 'm, 'd) kernel"
  | Product "('u, 'm, 'd) kernel" "('u, 'm, 'd) kernel"
  | Stationary "'d stationary_spec" "'d list" "('u, 'm, 'd) metric"
  | Additive "'d additive_spec" "'d list" "'u subspace"

subsection \<open>Loops\<close>

text \<open>\<^verbatim>\<open>for (i = a; i < n; ++i) body\<close> with an \<^verbatim>\<open>unsigned\<close> counter.\<close>

function for_loop :: "'w::len word \<Rightarrow> 'w word \<Rightarrow> ('w word \<Rightarrow> 'a \<Rightarrow> 'a) \<Rightarrow> 'a \<Rightarrow> 'a" where
  "for_loop i n body st = (if i < n then for_loop (i + 1) n body (body i st) else st)"
  by pat_completeness auto
termination
proof (relation "measure (\<lambda>(i, n, body, st). unat n - unat i)", goal_cases)
  case 1
  show ?case by simp
next
  case (2 i n body st)
  have "unat n < 2 ^ size n"
    by (simp add: word_size)
  with 2 have "unat i + 1 < 2 ^ size n"
    unfolding word_less_nat_alt by linarith
  then have "unat (i + 1) = Suc (unat i)"
    by (simp add: unat_word_ariths word_size)
  with 2 show ?case
    by (simp add: word_less_nat_alt)
qed

text \<open>
  The statements the template generates once per declared parameter, in declaration
  order: the chain \<^verbatim>\<open>if (i == 0) return param_a_; if (i == 1) return param_b_; ...\<close>,
  which falls through to what follows it when no index matches, and the chain
  \<^verbatim>\<open>if (i == 0) param_a_ = value; else if (i == 1) param_b_ = value; else ...\<close>.
\<close>

fun get_own :: "'w::len word \<Rightarrow> nat \<Rightarrow> 'd list \<Rightarrow> 'd option" where
  "get_own i j [] = None"
| "get_own i j (p # ps) = (if i = of_nat j then Some p else get_own i (Suc j) ps)"

fun set_own :: "'w::len word \<Rightarrow> nat \<Rightarrow> 'd \<Rightarrow> 'd list \<Rightarrow> 'd list option" where
  "set_own i j v [] = None"
| "set_own i j v (p # ps) =
     (if i = of_nat j then Some (v # ps) else map_option ((#) p) (set_own i (Suc j) v ps))"

subsection \<open>Parameter vector\<close>

definition Operator_size :: "'w::len word \<Rightarrow> 'w word \<Rightarrow> 'w word" where
  "Operator_size size1 size2 = size1 + size2"

fun size_k :: "('w::len word, 'm, 'd) kernel \<Rightarrow> 'w word" where
  "size_k Kernel = 0"
| "size_k (Sum k1 k2) = Operator_size (size_k k1) (size_k k2)"
| "size_k (Product k1 k2) = Operator_size (size_k k1) (size_k k2)"
| "size_k (Stationary sp ps M) = Metric_size M + of_nat (length ps)"
| "size_k (Additive sp ps S) = of_nat (length ps)"

fun get_ndim :: "('w::len word, 'm, 'd) kernel \<Rightarrow> 'w word" where
  "get_ndim Kernel = 0"
| "get_ndim (Sum k1 k2) = get_ndim k1"
| "get_ndim (Product k1 k2) = get_ndim k1"
| "get_ndim (Stationary sp ps M) = Metric_get_ndim M"
| "get_ndim (Additive sp ps S) = sub_get_ndim S"

fun get_parameter :: "('w::len word, 'm, 'd::zero) kernel \<Rightarrow> 'w word \<Rightarrow> 'd" where
  "get_parameter Kernel i = 0"
| "get_parameter (Sum k1 k2) i =
     (let n = size_k k1 in if i < n then get_parameter k1 i else get_parameter k2 (i - n))"
| "get_parameter (Product k1 k2) i =
     (let n = size_k k1 in if i < n then get_parameter k1 i else get_parameter k2 (i - n))"
| "get_parameter (Stationary sp ps M) i =
     (case get_own i 0 ps of
        Some p \<Rightarrow> p
      | None \<Rightarrow> Metric_get_parameter M (i - of_nat (length ps)))"
| "get_parameter (Additive sp ps S) i =
     (case get_own i 0 ps of Some p \<Rightarrow> p | None \<Rightarrow> 0)"

fun set_parameter :: "('w::len word, 'm, 'd) kernel \<Rightarrow> 'w word \<Rightarrow> 'd \<Rightarrow> ('w word, 'm, 'd) kernel" where
  "set_parameter Kernel i v = Kernel"
| "set_parameter (Sum k1 k2) i v =
     (let n = size_k k1
      in if i < n then Sum (set_parameter k1 i v) k2 else Sum k1 (set_parameter k2 (i - n) v))"
| "set_parameter (Product k1 k2) i v =
     (let n = size_k k1
      in if i < n then Product (set_parameter k1 i v) k2
         else Product k1 (set_parameter k2 (i - n) v))"
| "set_parameter (Stationary sp ps M) i v =
     (case set_own i 0 v ps of
        Some ps' \<Rightarrow> Stationary sp ps' M
      | None \<Rightarrow> Stationary sp ps (Metric_set_parameter M (i - of_nat (length ps)) v))"
| "set_parameter (Additive sp ps S) i v =
     (case set_own i 0 v ps of Some ps' \<Rightarrow> Additive sp ps' S | None \<Rightarrow> Additive sp ps S)"

subsection \<open>Value\<close>

fun value_k :: "('w::len word, 'm, 'd::{zero,plus,times}) kernel \<Rightarrow> 'd vec \<Rightarrow> 'd vec \<Rightarrow> 'd" where
  "value_k Kernel x1 x2 = 0"
| "value_k (Sum k1 k2) x1 x2 = value_k k1 x1 x2 + value_k k2 x1 x2"
| "value_k (Product k1 k2) x1 x2 = value_k k1 x1 x2 * value_k k2 x1 x2"
| "value_k (Stationary sp ps M) x1 x2 =
     (let r2 = Metric_value M x1 x2 in s_get_value sp ps r2)"
| "value_k (Additive sp ps S) x1 x2 =
     (let n = get_naxes S
      in for_loop 0 n
           (\<lambda>i val. let j = get_axis S i
                     in val + a_get_value sp ps (x1 (unat j)) (x2 (unat j)))
           0)"

subsection \<open>Gradient\<close>

text \<open>\<^verbatim>\<open>grad[i] *= c\<close> for every \<open>i\<close> from \<open>a\<close> up to, not including, \<open>n\<close>.\<close>

definition scale :: "'w::len word \<Rightarrow> 'w word \<Rightarrow> 'd::times \<Rightarrow> nat \<Rightarrow> 'd store \<Rightarrow> 'd store" where
  "scale a n c g s = for_loop a n (\<lambda>i s. s(g + unat i := s (g + unat i) * c)) s"

text \<open>
  The assignments \<^verbatim>\<open>grad[0] = f_0; grad[1] = f_1; ...\<close> and the updates
  \<^verbatim>\<open>grad[0] += f_0; grad[1] += f_1; ...\<close>, one per declared parameter.
\<close>

definition assign_each :: "nat \<Rightarrow> (nat \<Rightarrow> 'd) \<Rightarrow> nat \<Rightarrow> 'd store \<Rightarrow> 'd store" where
  "assign_each k f g s = fold (\<lambda>j s. s(g + j := f j)) [0..<k] s"

definition add_each :: "nat \<Rightarrow> (nat \<Rightarrow> 'd::plus) \<Rightarrow> nat \<Rightarrow> 'd store \<Rightarrow> 'd store" where
  "add_each k f g s = fold (\<lambda>j s. s(g + j := s (g + j) + f j)) [0..<k] s"

fun gradient_k ::
  "('w::len word, 'm, 'd::{zero,plus,times}) kernel \<Rightarrow> 'd vec \<Rightarrow> 'd vec \<Rightarrow> nat \<Rightarrow> 'd store \<Rightarrow> 'd store"
where
  "gradient_k Kernel x1 x2 g s = s"
| "gradient_k (Sum k1 k2) x1 x2 g s =
     (let n = size_k k1;
          s = gradient_k k1 x1 x2 g s
      in gradient_k k2 x1 x2 (g + unat n) s)"
| "gradient_k (Product k1 k2) x1 x2 g s =
     (let n1 = size_k k1;
          n2 = size_k (Product k1 k2);
          s = gradient_k k1 x1 x2 g s;
          s = gradient_k k2 x1 x2 (g + unat n1) s;
          v1 = value_k k1 x1 x2;
          v2 = value_k k2 x1 x2;
          s = scale 0 n1 v2 g s
      in scale n1 n2 v1 g s)"
| "gradient_k (Stationary sp ps M) x1 x2 g s =
     (let size' = of_nat (length ps);
          n = size_k (Stationary sp ps M);
          r2 = Metric_value M x1 x2;
          r2grad = s_radial_gradient sp ps r2;
          s = assign_each (length ps) (\<lambda>j. s_param_gradient sp j ps r2) g s;
          s = Metric_gradient M x1 x2 (g + unat size') s
      in scale size' n r2grad g s)"
| "gradient_k (Additive sp ps S) x1 x2 g s =
     (let s = assign_each (length ps) (\<lambda>j. 0) g s
      in if ps \<noteq> [] then
           let n = get_naxes S
           in for_loop 0 n
                (\<lambda>i s. let j = get_axis S i
                        in add_each (length ps)
                             (\<lambda>p. a_param_gradient sp p ps (x1 (unat j)) (x2 (unat j))) g s)
                s
         else s)"

subsection \<open>The contract of a metric\<close>

text \<open>
  Section 6 of the specification gives a metric "the same addressing contract as Kernel",
  and section 3 fixes the size and the dimension of a node for its lifetime. For a metric
  this is a hypothesis, since its code is not at hand: in every state, \<^verbatim>\<open>set_parameter\<close>
  at an index below \<^verbatim>\<open>size()\<close> changes neither \<^verbatim>\<open>size()\<close> nor \<^verbatim>\<open>get_ndim()\<close>.
  \<open>metrics_fixed k\<close> says so of every metric in the tree \<open>k\<close>.
\<close>

definition metric_fixed :: "('w::len word, 'm, 'd) metric \<Rightarrow> bool" where
  "metric_fixed M =
     (\<forall>st i v. i < m_size M st \<longrightarrow>
        m_size M (m_set_parameter M st i v) = m_size M st \<and>
        m_get_ndim M (m_set_parameter M st i v) = m_get_ndim M st)"

fun metrics_fixed :: "('w::len word, 'm, 'd) kernel \<Rightarrow> bool" where
  "metrics_fixed Kernel = True"
| "metrics_fixed (Sum k1 k2) = (metrics_fixed k1 \<and> metrics_fixed k2)"
| "metrics_fixed (Product k1 k2) = (metrics_fixed k1 \<and> metrics_fixed k2)"
| "metrics_fixed (Stationary sp ps M) = metric_fixed M"
| "metrics_fixed (Additive sp ps S) = True"

subsection \<open>Example objects\<close>

text \<open>
  Concrete objects over 32-bit \<^verbatim>\<open>unsigned\<close> and integer values, on which the theorems below
  are run: a metric with one weight per axis, \<open>r2 = w0 (x1[0] - x2[0])^2 + w1 (x1[1] -
  x2[1])^2\<close>; a stationary kernel \<open>a * r2\<close> with the hyperparameter \<open>a\<close>; an additive kernel
  \<open>a * x * y + b\<close> with the hyperparameters \<open>a\<close> and \<open>b\<close> over both axes, taken in reverse
  order.
\<close>

definition M0 :: "(32 word, int list, int) metric" where
  "M0 = \<lparr> m_state = [2, 3],
          m_value = (\<lambda>st x1 x2. st ! 0 * ((x1 0 - x2 0) * (x1 0 - x2 0)) +
                                  st ! 1 * ((x1 1 - x2 1) * (x1 1 - x2 1))),
          m_gradient = (\<lambda>st x1 x2 i. (x1 i - x2 i) * (x1 i - x2 i)),
          m_size = (\<lambda>st. of_nat (length st)),
          m_get_ndim = (\<lambda>st. of_nat (length st)),
          m_get_parameter = (\<lambda>st i. st ! unat i),
          m_set_parameter = (\<lambda>st i v. st[unat i := v]) \<rparr>"

definition sp0 :: "int stationary_spec" where
  "sp0 = \<lparr> s_get_value = (\<lambda>ps r2. ps ! 0 * r2),
           s_param_gradient = (\<lambda>j ps r2. r2),
           s_radial_gradient = (\<lambda>ps r2. ps ! 0) \<rparr>"

definition asp0 :: "int additive_spec" where
  "asp0 = \<lparr> a_get_value = (\<lambda>ps x y. ps ! 0 * (x * y) + ps ! 1),
            a_param_gradient = (\<lambda>p ps x y. if p = 0 then x * y else 1) \<rparr>"

definition S0 :: "32 word subspace" where
  "S0 = \<lparr> get_naxes = 2, get_axis = (\<lambda>i. 1 - i), sub_get_ndim = 2 \<rparr>"

definition S_empty :: "32 word subspace" where
  "S_empty = \<lparr> get_naxes = 0, get_axis = (\<lambda>i. i), sub_get_ndim = 2 \<rparr>"

definition A0 :: "(32 word, int list, int) kernel" where
  "A0 = Stationary sp0 [5] M0"

definition B0 :: "(32 word, int list, int) kernel" where
  "B0 = Additive asp0 [7, 11] S0"

definition x0 :: "int vec" where "x0 = (\<lambda>j. if j = 0 then 1 else 4)"
definition y0 :: "int vec" where "y0 = (\<lambda>j. if j = 0 then 3 else 1)"

definition B_empty :: "(32 word, int list, int) kernel" where
  "B_empty = Additive asp0 [7, 11] S_empty"

definition B3 :: "(32 word, int list, int) kernel" where
  "B3 = Additive asp0 [7, 11] (S0\<lparr>sub_get_ndim := 3\<rparr>)"


section \<open>Loops and store cells\<close>

declare for_loop.simps [simp del]

lemma for_loop_stop: "\<not> i < n \<Longrightarrow> for_loop i n body st = st"
  by (simp add: for_loop.simps)

lemma for_loop_step: "i < n \<Longrightarrow> for_loop i n body st = for_loop (i + 1) n body (body i st)"
  by (subst for_loop.simps) simp

lemma unat_succ: "i < n \<Longrightarrow> unat (i + 1) = Suc (unat i)" for i n :: "'w::len word"
proof -
  assume lt: "i < n"
  have "unat n < 2 ^ LENGTH('w)" by (rule unsigned_less)
  with lt have "unat i + 1 < 2 ^ LENGTH('w)" unfolding word_less_nat_alt by linarith
  then show ?thesis by (simp add: unat_word_ariths)
qed

lemma for_loop_induct_fixed:
  fixes n i :: "'w::len word"
  assumes "\<And>i st. (i < n \<Longrightarrow> P (i + 1) (body i st)) \<Longrightarrow> P i st"
  shows "P i st"
proof -
  have "n' = n \<longrightarrow> body' = body \<longrightarrow> P i st" for n' body'
    by (induction i n' body' st rule: for_loop.induct) (auto intro: assms)
  then show ?thesis by simp
qed

lemma for_loop_invariant:
  assumes "\<And>i st. P st \<Longrightarrow> P (body i st)" and "P st"
  shows "P (for_loop i n body st)"
  using assms(2)
proof (induction i st rule: for_loop_induct_fixed[where n = n and body = body])
  case (1 i st)
  show ?case
  proof (cases "i < n")
    case True
    with 1 assms(1) show ?thesis by (simp add: for_loop_step)
  next
    case False
    with 1 show ?thesis by (simp add: for_loop_stop)
  qed
qed

lemma scale_cell:
  "scale a n c g s x = (if g + unat a \<le> x \<and> x < g + unat n then s x * c else s x)"
  unfolding scale_def
proof (induction a s rule: for_loop_induct_fixed[where n = n
         and body = "\<lambda>i s. s(g + unat i := s (g + unat i) * c)"])
  case (1 i s)
  show ?case
  proof (cases "i < n")
    case True
    note ih = 1[OF True]
    from True have u: "unat (i + 1) = Suc (unat i)" by (rule unat_succ)
    from True have lt: "unat i < unat n" by (simp add: word_less_nat_alt)
    show ?thesis
      using lt by (subst for_loop_step[OF True]) (auto simp: ih u)
  next
    case False
    then have "unat n \<le> unat i" by (simp add: word_less_nat_alt)
    with False show ?thesis by (auto simp: for_loop_stop)
  qed
qed

lemma assign_each_cell:
  "assign_each k f g s x = (if g \<le> x \<and> x < g + k then f (x - g) else s x)"
  unfolding assign_each_def
  by (induction k) auto

lemma add_each_cell:
  "add_each k f g s x = (if g \<le> x \<and> x < g + k then s x + f (x - g) else s x)"
  unfolding add_each_def
  by (induction k) auto

lemma Metric_gradient_cell:
  "Metric_gradient M x1 x2 g s x =
     (if g \<le> x \<and> x < g + unat (Metric_size M) then m_gradient M (m_state M) x1 x2 (x - g) else s x)"
  by (simp add: Metric_gradient_def)


lemma unat_add_no_wrap:
  fixes a b :: "'w::len word"
  assumes "unat a \<le> j" and "j < unat (a + b)"
  shows "unat (a + b) = unat a + unat b"
proof (cases "unat a + unat b < 2 ^ LENGTH('w)")
  case True
  then show ?thesis by (simp add: unat_word_ariths)
next
  case False
  have a: "unat a < 2 ^ LENGTH('w)" and b: "unat b < 2 ^ LENGTH('w)"
    by (rule unsigned_less)+
  have "unat (a + b) = (unat a + unat b) mod 2 ^ LENGTH('w)"
    by (simp add: unat_word_ariths)
  also have "\<dots> = (unat a + unat b - 2 ^ LENGTH('w)) mod 2 ^ LENGTH('w)"
    using False by (simp add: le_mod_geq)
  also have "\<dots> = unat a + unat b - 2 ^ LENGTH('w)"
    using a b by (intro mod_less) linarith
  finally have "unat (a + b) < unat a" using False b by linarith
  with assms show ?thesis by linarith
qed

lemma additive_accumulate:
  assumes "p < k"
  shows "for_loop i n (\<lambda>i s. let j = ax i in add_each k (F j) g s) s (g + p) =
         for_loop i n (\<lambda>i acc. let j = ax i in acc + F j p) (s (g + p))"
    (is "for_loop i n ?b1 s (g + p) = for_loop i n ?b2 (s (g + p))")
proof (induction i s rule: for_loop_induct_fixed[where n = n and body = "?b1"])
  case (1 i s)
  show ?case
  proof (cases "i < n")
    case True
    have cell: "?b1 i s (g + p) = ?b2 i (s (g + p))"
      using assms by (simp add: add_each_cell Let_def)
    have "for_loop i n ?b1 s (g + p) = for_loop (i + 1) n ?b1 (?b1 i s) (g + p)"
      by (subst for_loop_step[OF True]) (rule refl)
    also have "\<dots> = for_loop (i + 1) n ?b2 (?b1 i s (g + p))"
      by (rule 1[OF True])
    also have "\<dots> = for_loop (i + 1) n ?b2 (?b2 i (s (g + p)))"
      by (simp only: cell)
    also have "\<dots> = for_loop i n ?b2 (s (g + p))"
      by (simp add: for_loop_step[OF True])
    finally show ?thesis .
  next
    case False
    then show ?thesis by (simp add: for_loop_stop)
  qed
qed

lemma gradient_k_frame:
  fixes k :: "('w::len word, 'm, 'd::{zero,plus,times}) kernel"
  shows "x < g \<Longrightarrow> gradient_k k x1 x2 g s x = s x"
proof (induction k arbitrary: g s)
  case Kernel
  show ?case by simp
next
  case (Sum k1 k2)
  then show ?case by (simp add: Let_def)
next
  case (Product k1 k2)
  then show ?case by (simp add: Let_def scale_cell)
next
  case (Stationary sp ps M)
  then show ?case by (simp add: Let_def scale_cell Metric_gradient_cell assign_each_cell)
next
  case (Additive sp ps S)
  let ?s0 = "assign_each (length ps) (\<lambda>j. 0) g s"
  have s0: "?s0 x = s x"
    using Additive by (simp add: assign_each_cell)
  have "for_loop 0 (get_naxes S)
          (\<lambda>i s. let j = get_axis S i
                  in add_each (length ps)
                       (\<lambda>p. a_param_gradient sp p ps (x1 (unat j)) (x2 (unat j))) g s)
          ?s0 x = s x"
  proof (rule for_loop_invariant[where P = "\<lambda>st. st x = s x"])
    show "?s0 x = s x" by (rule s0)
  next
    fix i :: "'w word" and st :: "'d store"
    assume "st x = s x"
    with Additive show "(let j = get_axis S i
            in add_each (length ps)
                 (\<lambda>p. a_param_gradient sp p ps (x1 (unat j)) (x2 (unat j))) g st) x = s x"
      by (simp add: Let_def add_each_cell)
  qed
  with s0 show ?case by (auto simp: Let_def)
qed

section \<open>What each kernel writes into a cell\<close>

lemma Sum_left_cell:
  fixes A B :: "('w::len word, 'm, 'd::{zero,plus,times}) kernel"
  assumes "j < unat (size_k A)"
  shows "gradient_k (Sum A B) x1 x2 g s (g + j) = gradient_k A x1 x2 g s (g + j)"
  using assms by (simp add: Let_def gradient_k_frame)

lemma Sum_right_cell:
  fixes A B :: "('w::len word, 'm, 'd::{zero,plus,times}) kernel"
  shows "gradient_k (Sum A B) x1 x2 g s x =
         gradient_k B x1 x2 (g + unat (size_k A)) (gradient_k A x1 x2 g s) x"
  by (simp add: Let_def)

lemma Product_left_cell:
  fixes A B :: "('w::len word, 'm, 'd::{zero,plus,times}) kernel"
  assumes "j < unat (size_k A)"
  shows "gradient_k (Product A B) x1 x2 g s (g + j) =
         gradient_k A x1 x2 g s (g + j) * value_k B x1 x2"
  using assms by (simp add: Let_def scale_cell gradient_k_frame)

lemma Product_right_cell:
  fixes A B :: "('w::len word, 'm, 'd::{zero,plus,times}) kernel"
  assumes "unat (size_k A) \<le> j" and "j < unat (size_k A + size_k B)"
  shows "gradient_k (Product A B) x1 x2 g s (g + j) =
         gradient_k B x1 x2 (g + unat (size_k A)) (gradient_k A x1 x2 g s) (g + j) *
         value_k A x1 x2"
  using assms by (simp add: Let_def scale_cell Operator_size_def)

lemma unat_of_nat_le: "unat (of_nat k :: 'w::len word) \<le> k"
  by (simp add: unat_of_nat)

lemma Stationary_own_cell:
  fixes M :: "('w::len word, 'm, 'd::{zero,plus,times}) metric"
  assumes "j < unat (of_nat (length ps) :: 'w word)"
  shows "gradient_k (Stationary sp ps M) x1 x2 g s (g + j) =
         s_param_gradient sp j ps (Metric_value M x1 x2)"
proof -
  from assms have "j < length ps"
    using unat_of_nat_le[of "length ps", where 'w = 'w] by linarith
  with assms show ?thesis
    by (simp add: Let_def scale_cell Metric_gradient_cell assign_each_cell)
qed

lemma Stationary_metric_cell:
  fixes M :: "('w::len word, 'm, 'd::{zero,plus,times}) metric"
  assumes "unat (of_nat (length ps) :: 'w word) \<le> j"
    and "j < unat (Metric_size M + of_nat (length ps))"
  shows "gradient_k (Stationary sp ps M) x1 x2 g s (g + j) =
         m_gradient M (m_state M) x1 x2 (j - unat (of_nat (length ps) :: 'w word)) *
         s_radial_gradient sp ps (Metric_value M x1 x2)"
proof -
  have "unat (of_nat (length ps) + Metric_size M) =
        unat (of_nat (length ps) :: 'w word) + unat (Metric_size M)"
    using assms by (intro unat_add_no_wrap[where j = j]) (simp_all add: add.commute)
  with assms show ?thesis
    by (simp add: Let_def scale_cell Metric_gradient_cell add.commute)
qed

lemma Additive_cell:
  fixes S :: "'w::len word subspace" and sp :: "'d::{zero,plus,times} additive_spec"
  assumes "p < length ps"
  shows "gradient_k (Additive sp ps S) x1 x2 g s (g + p) =
         for_loop 0 (get_naxes S)
           (\<lambda>i acc. let j = get_axis S i
                     in acc + a_param_gradient sp p ps (x1 (unat j)) (x2 (unat j)))
           0"
proof -
  from assms have ne: "ps \<noteq> []" by auto
  have "gradient_k (Additive sp ps S) x1 x2 g s (g + p) =
        for_loop 0 (get_naxes S)
          (\<lambda>i s. let j = get_axis S i
                  in add_each (length ps)
                       (\<lambda>p. a_param_gradient sp p ps (x1 (unat j)) (x2 (unat j))) g s)
          (assign_each (length ps) (\<lambda>j. 0) g s) (g + p)"
    using ne by (simp add: Let_def)
  also have "\<dots> = for_loop 0 (get_naxes S)
           (\<lambda>i acc. let j = get_axis S i
                     in acc + a_param_gradient sp p ps (x1 (unat j)) (x2 (unat j)))
           (assign_each (length ps) (\<lambda>j. 0) g s (g + p))"
    by (rule additive_accumulate
         [where F = "\<lambda>j p. a_param_gradient sp p ps (x1 (unat j)) (x2 (unat j))", OF assms])
  finally show ?thesis using assms by (simp add: assign_each_cell)
qed

lemma gradient_k_entry:
  fixes k :: "('w::len word, 'm, 'd::{zero,plus,times}) kernel"
  assumes "j < unat (size_k k)"
  shows "gradient_k k x1 x2 g s (g + j) = gradient_k k x1 x2 g' s' (g' + j)"
  using assms
proof (induction k arbitrary: j g s g' s')
  case Kernel
  then show ?case by simp
next
  case (Sum A B)
  show ?case
  proof (cases "j < unat (size_k A)")
    case True
    then show ?thesis
      by (simp only: Sum_left_cell Sum.IH(1)[OF True, of g s g' s'])
  next
    case False
    let ?n = "unat (size_k A)"
    from False Sum.prems have nw: "unat (size_k A + size_k B) = ?n + unat (size_k B)"
      by (intro unat_add_no_wrap[where j = j]) (simp_all add: Operator_size_def)
    with False Sum.prems have r: "j - ?n < unat (size_k B)"
      by (simp add: Operator_size_def)
    from False have j: "g + j = g + ?n + (j - ?n)" "g' + j = g' + ?n + (j - ?n)"
      by simp_all
    show ?thesis
      unfolding Sum_right_cell
      by (subst j(1), subst j(2)) (rule Sum.IH(2)[OF r])
  qed
next
  case (Product A B)
  show ?case
  proof (cases "j < unat (size_k A)")
    case True
    then show ?thesis
      by (simp only: Product_left_cell Product.IH(1)[OF True, of g s g' s'])
  next
    case False
    let ?n = "unat (size_k A)"
    from False Product.prems have nw: "unat (size_k A + size_k B) = ?n + unat (size_k B)"
      by (intro unat_add_no_wrap[where j = j]) (simp_all add: Operator_size_def)
    with False Product.prems have r: "j - ?n < unat (size_k B)"
      by (simp add: Operator_size_def)
    from False have j: "g + j = g + ?n + (j - ?n)" "g' + j = g' + ?n + (j - ?n)"
      by simp_all
    from False Product.prems have in_range: "?n \<le> j" "j < unat (size_k A + size_k B)"
      by (simp_all add: Operator_size_def)
    have "gradient_k B x1 x2 (g + ?n) (gradient_k A x1 x2 g s) (g + j) =
          gradient_k B x1 x2 (g' + ?n) (gradient_k A x1 x2 g' s') (g' + j)"
      by (subst j(1), subst j(2)) (rule Product.IH(2)[OF r])
    then show ?thesis
      by (simp only: Product_right_cell[OF in_range])
  qed
next
  case (Stationary sp ps M)
  show ?case
  proof (cases "j < unat (of_nat (length ps) :: 'w word)")
    case True
    then show ?thesis by (simp only: Stationary_own_cell)
  next
    case False
    with Stationary show ?thesis
      by (simp only: Stationary_metric_cell size_k.simps not_less)
  qed
next
  case (Additive sp ps S)
  then have "j < length ps"
    using unat_of_nat_le[of "length ps", where 'w = 'w] by simp
  then show ?case by (simp only: Additive_cell)
qed

section \<open>The parameter chains and the metric contract\<close>

lemma get_own_None:
  fixes i :: "'w::len word"
  assumes "j + length ps \<le> unat i"
  shows "get_own i j ps = None"
  using assms
proof (induction ps arbitrary: j)
  case Nil
  show ?case by simp
next
  case (Cons p ps)
  have "unat (of_nat j :: 'w word) \<le> j"
    by (rule unat_of_nat_le)
  with Cons.prems have "i \<noteq> of_nat j"
    by auto
  with Cons show ?case by simp
qed

lemma set_own_None:
  fixes i :: "'w::len word"
  assumes "j + length ps \<le> unat i"
  shows "set_own i j v ps = None"
  using assms
proof (induction ps arbitrary: j)
  case Nil
  show ?case by simp
next
  case (Cons p ps)
  have "unat (of_nat j :: 'w word) \<le> j"
    by (rule unat_of_nat_le)
  with Cons.prems have "i \<noteq> of_nat j"
    by auto
  with Cons show ?case by simp
qed

lemma set_own_length: "set_own i j v ps = Some ps' \<Longrightarrow> length ps' = length ps"
  by (induction ps arbitrary: j ps') (auto split: if_splits)

lemma set_own_None_below:
  fixes i :: "'w::len word"
  assumes "set_own i j v ps = None" and "j \<le> unat i"
  shows "j + length ps \<le> unat i"
  using assms
proof (induction ps arbitrary: j)
  case Nil
  then show ?case by simp
next
  case (Cons p ps)
  from Cons.prems(1) have ne: "i \<noteq> of_nat j" and rest: "set_own i (Suc j) v ps = None"
    by (auto split: if_splits)
  from ne have "unat i \<noteq> j"
    by auto
  with Cons.prems(2) have "Suc j \<le> unat i"
    by simp
  from Cons.IH[OF rest this] show ?case by simp
qed

lemma word_sub_in_range:
  fixes a b i :: "'w::len word"
  assumes "a \<le> i" and "i < a + b"
  shows "i - a < b"
proof -
  from assms have le: "unat a \<le> unat i" and lt: "unat i < unat (a + b)"
    by (simp_all add: word_le_nat_alt word_less_nat_alt)
  then have "unat (a + b) = unat a + unat b"
    by (rule unat_add_no_wrap)
  moreover from assms(1) have "unat (i - a) = unat i - unat a"
    by (rule unat_sub)
  ultimately show ?thesis
    using le lt by (simp add: word_less_nat_alt)
qed

lemma Metric_set_parameter_fixed:
  assumes "metric_fixed M" and "i < Metric_size M"
  shows "Metric_size (Metric_set_parameter M i v) = Metric_size M"
    and "Metric_get_ndim (Metric_set_parameter M i v) = Metric_get_ndim M"
    and "metric_fixed (Metric_set_parameter M i v)"
  using assms
  by (simp_all add: metric_fixed_def Metric_size_def Metric_get_ndim_def Metric_set_parameter_def)

lemma set_parameter_fixed:
  fixes k :: "('w::len word, 'm, 'd) kernel"
  assumes "metrics_fixed k" and "i < size_k k"
  shows "size_k (set_parameter k i v) = size_k k \<and>
         get_ndim (set_parameter k i v) = get_ndim k \<and>
         metrics_fixed (set_parameter k i v)"
  using assms
proof (induction k arbitrary: i)
  case Kernel
  then show ?case by simp
next
  case (Sum A B)
  show ?case
  proof (cases "i < size_k A")
    case True
    with Sum.IH(1)[of i] Sum.prems show ?thesis
      by (simp add: Let_def Operator_size_def)
  next
    case False
    with Sum.prems have "i - size_k A < size_k B"
      by (intro word_sub_in_range) (simp_all add: Operator_size_def)
    with Sum.IH(2)[of "i - size_k A"] Sum.prems False show ?thesis
      by (simp add: Let_def Operator_size_def)
  qed
next
  case (Product A B)
  show ?case
  proof (cases "i < size_k A")
    case True
    with Product.IH(1)[of i] Product.prems show ?thesis
      by (simp add: Let_def Operator_size_def)
  next
    case False
    with Product.prems have "i - size_k A < size_k B"
      by (intro word_sub_in_range) (simp_all add: Operator_size_def)
    with Product.IH(2)[of "i - size_k A"] Product.prems False show ?thesis
      by (simp add: Let_def Operator_size_def)
  qed
next
  case (Stationary sp ps M)
  show ?case
  proof (cases "set_own i 0 v ps")
    case (Some ps')
    with Stationary.prems set_own_length[OF Some] show ?thesis
      by simp
  next
    case None
    then have "length ps \<le> unat i"
      using set_own_None_below[of i 0 v ps] by simp
    then have "(of_nat (length ps) :: 'w word) \<le> i"
      by (metis le_unat_uoi word_le_nat_alt unat_of_nat_le order_trans)
    moreover from Stationary.prems have "i < of_nat (length ps) + Metric_size M"
      by (simp add: add.commute)
    ultimately have "i - of_nat (length ps) < Metric_size M"
      by (rule word_sub_in_range)
    with Stationary.prems None show ?thesis
      by (simp add: Metric_set_parameter_fixed)
  qed
next
  case (Additive sp ps S)
  show ?case
  proof (cases "set_own i 0 v ps")
    case (Some ps')
    with set_own_length[OF Some] show ?thesis
      by simp
  next
    case None
    then show ?thesis by simp
  qed
qed

section \<open>Evaluation of the example objects\<close>

lemmas ex_defs = M0_def sp0_def asp0_def S0_def S_empty_def A0_def B0_def x0_def y0_def
  Metric_value_def Metric_size_def Metric_get_ndim_def Metric_get_parameter_def
  Metric_set_parameter_def Operator_size_def


lemmas ex_eval = ex_defs for_loop.simps Let_def scale_def assign_each_def add_each_def
  Metric_gradient_def

lemma metric_fixed_M0: "metric_fixed M0"
  by (simp add: metric_fixed_def M0_def)

section \<open>The claims\<close>

text \<open>
  C1: \<^verbatim>\<open>Product::gradient\<close> leaves in cell \<open>i < sA\<close> the \<open>i\<close>-th entry of the gradient of
  \<open>A\<close> times the value of \<open>B\<close>, and in cell \<open>i\<close> with \<open>sA \<le> i < sA + sB\<close> the entry
  \<open>i - sA\<close> of the gradient of \<open>B\<close> times the value of \<open>A\<close>, the values taken at the same
  inputs. The gradients of \<open>A\<close> and \<open>B\<close> on the right are run on any buffer at any
  address. \<open>sA + sB\<close> is the sum of \<^verbatim>\<open>unsigned\<close>, the size of the product.
\<close>

theorem Product_gradient_scaling:
  fixes A B :: "('w::len word, 'm, 'd::{zero,plus,times}) kernel"
  shows "(\<forall>j. j < unat (size_k A) \<longrightarrow>
            gradient_k (Product A B) x1 x2 g s (g + j) =
            gradient_k A x1 x2 g' s' (g' + j) * value_k B x1 x2) \<and>
         (\<forall>j. unat (size_k A) \<le> j \<and> j < unat (size_k A + size_k B) \<longrightarrow>
            gradient_k (Product A B) x1 x2 g s (g + j) =
            gradient_k B x1 x2 g' s' (g' + (j - unat (size_k A))) * value_k A x1 x2)"
proof (intro conjI allI impI)
  fix j
  assume "j < unat (size_k A)"
  then show "gradient_k (Product A B) x1 x2 g s (g + j) =
             gradient_k A x1 x2 g' s' (g' + j) * value_k B x1 x2"
    by (simp only: Product_left_cell gradient_k_entry[of j A x1 x2 g s g' s'])
next
  fix j
  let ?n = "unat (size_k A)"
  assume j: "?n \<le> j \<and> j < unat (size_k A + size_k B)"
  then have "unat (size_k A + size_k B) = ?n + unat (size_k B)"
    by (intro unat_add_no_wrap[where j = j]) simp_all
  with j have r: "j - ?n < unat (size_k B)"
    by linarith
  from j have split: "g + j = g + ?n + (j - ?n)"
    by simp
  from j have "gradient_k (Product A B) x1 x2 g s (g + j) =
        gradient_k B x1 x2 (g + ?n) (gradient_k A x1 x2 g s) (g + j) * value_k A x1 x2"
    by (simp only: Product_right_cell)
  also have "gradient_k B x1 x2 (g + ?n) (gradient_k A x1 x2 g s) (g + j) =
             gradient_k B x1 x2 g' s' (g' + (j - ?n))"
    by (subst split) (rule gradient_k_entry[OF r])
  finally show "gradient_k (Product A B) x1 x2 g s (g + j) =
                gradient_k B x1 x2 g' s' (g' + (j - ?n)) * value_k A x1 x2" .
qed

theorem Product_gradient_scaling_witness:
  "(1::nat) < unat (size_k A0) \<and>
   gradient_k (Product A0 B0) x0 y0 10 (\<lambda>a. 99) (10 + 1) = 20 * 71 \<and>
   unat (size_k A0) \<le> (4::nat) \<and> (4::nat) < unat (size_k A0 + size_k B0) \<and>
   gradient_k (Product A0 B0) x0 y0 10 (\<lambda>a. 99) (10 + 4) = 2 * 175"
proof -
  have h1: "(1::nat) < unat (size_k A0)"
    by (simp add: ex_defs)
  have h2: "unat (size_k A0) \<le> (4::nat) \<and> (4::nat) < unat (size_k A0 + size_k B0)"
    by (simp add: ex_defs)
  have a: "gradient_k A0 x0 y0 0 (\<lambda>a. 0) (0 + 1) = 20"
    by (simp add: ex_eval)
  have b: "gradient_k B0 x0 y0 0 (\<lambda>a. 0) (0 + (4 - unat (size_k A0))) = 2"
    by (simp add: ex_eval)
  have va: "value_k A0 x0 y0 = 175"
    by (simp add: ex_eval)
  have vb: "value_k B0 x0 y0 = 71"
    by (simp add: ex_eval)
  note scaling = Product_gradient_scaling[of A0 B0 x0 y0 10 "\<lambda>a. 99" 0 "\<lambda>a. 0"]
  from scaling h1 have c1: "gradient_k (Product A0 B0) x0 y0 10 (\<lambda>a. 99) (10 + 1) =
      gradient_k A0 x0 y0 0 (\<lambda>a. 0) (0 + 1) * value_k B0 x0 y0"
    by blast
  from scaling h2 have c2: "gradient_k (Product A0 B0) x0 y0 10 (\<lambda>a. 99) (10 + 4) =
      gradient_k B0 x0 y0 0 (\<lambda>a. 0) (0 + (4 - unat (size_k A0))) * value_k A0 x0 y0"
    by blast
  from h1 h2 show ?thesis
    by (simp only: c1 c2 a b va vb simp_thms)
qed

text \<open>
  C2: a stationary kernel with \<open>k\<close> own hyperparameters over a metric \<open>M\<close>, whose
  parameter count \<open>k + size(M)\<close> fits \<^verbatim>\<open>unsigned\<close>. For every parameter index \<open>i\<close> of the
  metric, \<^verbatim>\<open>gradient\<close> leaves in cell \<open>k + i\<close> the \<open>i\<close>-th entry that \<^verbatim>\<open>Metric::gradient\<close>
  writes (on any buffer, at any address) times the radial gradient, and in each cell
  \<open>j < k\<close> the partial derivative with respect to the \<open>j\<close>-th hyperparameter; the radial
  gradient and the partial derivatives are taken at \<open>r2 = Metric.value(x1, x2)\<close> and at
  the current hyperparameters.
\<close>

theorem Stationary_chain_rule:
  fixes M :: "('w::len word, 'm, 'd::{zero,plus,times}) metric"
  assumes "length ps + unat (Metric_size M) < 2 ^ LENGTH('w)"
  shows "(\<forall>i. i < unat (Metric_size M) \<longrightarrow>
            gradient_k (Stationary sp ps M) x1 x2 g s (g + (length ps + i)) =
            Metric_gradient M x1 x2 g' s' (g' + i) *
            s_radial_gradient sp ps (Metric_value M x1 x2)) \<and>
         (\<forall>j. j < length ps \<longrightarrow>
            gradient_k (Stationary sp ps M) x1 x2 g s (g + j) =
            s_param_gradient sp j ps (Metric_value M x1 x2))"
proof -
  let ?k = "of_nat (length ps) :: 'w word"
  from assms have k: "unat ?k = length ps"
    by (simp add: unat_of_nat)
  with assms have n: "unat (Metric_size M + ?k) = unat (Metric_size M) + length ps"
    by (simp add: unat_word_ariths add.commute)
  show ?thesis
  proof (intro conjI allI impI)
    fix i
    assume i: "i < unat (Metric_size M)"
    with k n have "gradient_k (Stationary sp ps M) x1 x2 g s (g + (length ps + i)) =
        m_gradient M (m_state M) x1 x2 (length ps + i - unat ?k) *
        s_radial_gradient sp ps (Metric_value M x1 x2)"
      by (intro Stationary_metric_cell) simp_all
    with i k show "gradient_k (Stationary sp ps M) x1 x2 g s (g + (length ps + i)) =
        Metric_gradient M x1 x2 g' s' (g' + i) *
        s_radial_gradient sp ps (Metric_value M x1 x2)"
      by (simp add: Metric_gradient_cell)
  next
    fix j
    assume "j < length ps"
    with k show "gradient_k (Stationary sp ps M) x1 x2 g s (g + j) =
        s_param_gradient sp j ps (Metric_value M x1 x2)"
      by (intro Stationary_own_cell) simp
  qed
qed

theorem Stationary_chain_rule_witness:
  "length [5 :: int] + unat (Metric_size M0) < 2 ^ LENGTH(32) \<and>
   (1 :: nat) < unat (Metric_size M0) \<and>
   Metric_value M0 x0 y0 = 35 \<and>
   Metric_gradient M0 x0 y0 0 (\<lambda>a. 0) (0 + 1) = 9 \<and>
   s_radial_gradient sp0 [5] 35 = 5 \<and>
   gradient_k A0 x0 y0 10 (\<lambda>a. 99) (10 + (length [5 :: int] + 1)) = 9 * 5 \<and>
   gradient_k A0 x0 y0 10 (\<lambda>a. 99) (10 + 0) = s_param_gradient sp0 0 [5] 35"
proof -
  have h: "length [5 :: int] + unat (Metric_size M0) < 2 ^ LENGTH(32)"
    by (simp add: ex_defs)
  have i: "(1 :: nat) < unat (Metric_size M0)"
    by (simp add: ex_defs)
  have r2: "Metric_value M0 x0 y0 = 35"
    by (simp add: ex_defs)
  have m: "Metric_gradient M0 x0 y0 0 (\<lambda>a. 0) (0 + 1) = 9"
    by (simp add: ex_eval)
  have r: "s_radial_gradient sp0 [5] 35 = 5"
    by (simp add: ex_defs)
  note rule = Stationary_chain_rule[OF h, of sp0 x0 y0 10 "\<lambda>a. 99" 0 "\<lambda>a. 0"]
  from rule i have c1: "gradient_k A0 x0 y0 10 (\<lambda>a. 99) (10 + (length [5 :: int] + 1)) =
      Metric_gradient M0 x0 y0 0 (\<lambda>a. 0) (0 + 1) *
      s_radial_gradient sp0 [5] (Metric_value M0 x0 y0)"
    unfolding A0_def by blast
  from rule have c2: "gradient_k A0 x0 y0 10 (\<lambda>a. 99) (10 + 0) =
      s_param_gradient sp0 0 [5] (Metric_value M0 x0 y0)"
    unfolding A0_def by simp
  from h i show ?thesis
    by (simp only: c1 c2 r2 m r simp_thms)
qed

text \<open>
  C3: for all kernels \<open>A\<close> and \<open>B\<close> and all input vectors, the value of \<open>Sum A B\<close> is the
  value of \<open>A\<close> plus the value of \<open>B\<close>, and the value of \<open>Product A B\<close> is the value of
  \<open>A\<close> times the value of \<open>B\<close>.
\<close>

theorem value_Sum_Product:
  "value_k (Sum A B) x1 x2 = value_k A x1 x2 + value_k B x1 x2 \<and>
   value_k (Product A B) x1 x2 = value_k A x1 x2 * value_k B x1 x2"
  by simp

text \<open>
  C4: \<^verbatim>\<open>Sum::gradient\<close> leaves in the cells \<open>0\<close>, ..., \<open>sA - 1\<close> of the buffer the entries
  that the gradient of \<open>A\<close> alone produces, and in the cells \<open>sA\<close>, ..., \<open>sA + sB - 1\<close> the
  entries \<open>0\<close>, ..., \<open>sB - 1\<close> that the gradient of \<open>B\<close> alone produces. The gradients of
  \<open>A\<close> and \<open>B\<close> on the right are run on any buffer \<open>s'\<close> at any address \<open>g'\<close>: each half
  depends on its own child only, not on the other child and not on what the buffer
  held. \<open>sA + sB\<close> is the sum of \<^verbatim>\<open>unsigned\<close>, the size of the sum.
\<close>

theorem Sum_gradient_halves:
  fixes A B :: "('w::len word, 'm, 'd::{zero,plus,times}) kernel"
  shows "(\<forall>j. j < unat (size_k A) \<longrightarrow>
            gradient_k (Sum A B) x1 x2 g s (g + j) = gradient_k A x1 x2 g' s' (g' + j)) \<and>
         (\<forall>j. unat (size_k A) \<le> j \<and> j < unat (size_k A + size_k B) \<longrightarrow>
            gradient_k (Sum A B) x1 x2 g s (g + j) =
            gradient_k B x1 x2 g' s' (g' + (j - unat (size_k A))))"
proof (intro conjI allI impI)
  fix j
  assume "j < unat (size_k A)"
  then show "gradient_k (Sum A B) x1 x2 g s (g + j) = gradient_k A x1 x2 g' s' (g' + j)"
    by (simp only: Sum_left_cell gradient_k_entry[of j A x1 x2 g s g' s'])
next
  fix j
  let ?n = "unat (size_k A)"
  assume j: "?n \<le> j \<and> j < unat (size_k A + size_k B)"
  then have "unat (size_k A + size_k B) = ?n + unat (size_k B)"
    by (intro unat_add_no_wrap[where j = j]) simp_all
  with j have r: "j - ?n < unat (size_k B)"
    by linarith
  from j have "g + j = g + ?n + (j - ?n)"
    by simp
  then have "gradient_k (Sum A B) x1 x2 g s (g + j) =
             gradient_k B x1 x2 (g + ?n) (gradient_k A x1 x2 g s) (g + ?n + (j - ?n))"
    by (simp only: Sum_right_cell)
  also have "\<dots> = gradient_k B x1 x2 g' s' (g' + (j - ?n))"
    by (rule gradient_k_entry[OF r])
  finally show "gradient_k (Sum A B) x1 x2 g s (g + j) =
                gradient_k B x1 x2 g' s' (g' + (j - ?n))" .
qed

theorem Sum_gradient_halves_witness:
  "(1::nat) < unat (size_k A0) \<and>
   gradient_k (Sum A0 B0) x0 y0 10 (\<lambda>a. 99) (10 + 1) = 20 \<and>
   unat (size_k A0) \<le> (4::nat) \<and> (4::nat) < unat (size_k A0 + size_k B0) \<and>
   gradient_k (Sum A0 B0) x0 y0 10 (\<lambda>a. 99) (10 + 4) = 2"
proof -
  have h1: "(1::nat) < unat (size_k A0)"
    by (simp add: ex_defs)
  have h2: "unat (size_k A0) \<le> (4::nat) \<and> (4::nat) < unat (size_k A0 + size_k B0)"
    by (simp add: ex_defs)
  have a: "gradient_k A0 x0 y0 0 (\<lambda>a. 0) (0 + 1) = 20"
    by (simp add: ex_eval)
  have b: "gradient_k B0 x0 y0 0 (\<lambda>a. 0) (0 + (4 - unat (size_k A0))) = 2"
    by (simp add: ex_eval)
  note halves = Sum_gradient_halves[of A0 B0 x0 y0 10 "\<lambda>a. 99" 0 "\<lambda>a. 0"]
  from halves h1 have c1: "gradient_k (Sum A0 B0) x0 y0 10 (\<lambda>a. 99) (10 + 1) =
      gradient_k A0 x0 y0 0 (\<lambda>a. 0) (0 + 1)"
    by blast
  from halves h2 have c2: "gradient_k (Sum A0 B0) x0 y0 10 (\<lambda>a. 99) (10 + 4) =
      gradient_k B0 x0 y0 0 (\<lambda>a. 0) (0 + (4 - unat (size_k A0)))"
    by blast
  from h1 h2 show ?thesis
    by (simp only: c1 c2 a b simp_thms)
qed

text \<open>
  C5: for \<open>Sum A B\<close> and \<open>Product A B\<close> and every index \<open>i\<close>, \<^verbatim>\<open>get_parameter(i)\<close> is that
  of \<open>A\<close> at \<open>i\<close> when \<open>i\<close> is below the size of \<open>A\<close>, and that of \<open>B\<close> at \<open>i - sA\<close>
  otherwise; \<^verbatim>\<open>set_parameter(i, v)\<close> updates the same child at the same index and leaves
  the other child as it was. When the child that receives the index returns \<open>v\<close> after
  it was set to \<open>v\<close> and the metrics of \<open>A\<close> keep the contract above, then so does the
  operator.
\<close>

theorem Operator_parameter_routing:
  fixes A B :: "('w::len word, 'm, 'd::zero) kernel"
  shows "get_parameter (Sum A B) i =
           (if i < size_k A then get_parameter A i else get_parameter B (i - size_k A)) \<and>
         get_parameter (Product A B) i =
           (if i < size_k A then get_parameter A i else get_parameter B (i - size_k A)) \<and>
         set_parameter (Sum A B) i v =
           (if i < size_k A then Sum (set_parameter A i v) B
            else Sum A (set_parameter B (i - size_k A) v)) \<and>
         set_parameter (Product A B) i v =
           (if i < size_k A then Product (set_parameter A i v) B
            else Product A (set_parameter B (i - size_k A) v)) \<and>
         (metrics_fixed A \<and>
          (i < size_k A \<longrightarrow> get_parameter (set_parameter A i v) i = v) \<and>
          (\<not> i < size_k A \<longrightarrow>
             get_parameter (set_parameter B (i - size_k A) v) (i - size_k A) = v) \<longrightarrow>
          get_parameter (set_parameter (Sum A B) i v) i = v \<and>
          get_parameter (set_parameter (Product A B) i v) i = v)"
proof (intro conjI impI)
  assume h: "metrics_fixed A \<and>
      (i < size_k A \<longrightarrow> get_parameter (set_parameter A i v) i = v) \<and>
      (\<not> i < size_k A \<longrightarrow>
         get_parameter (set_parameter B (i - size_k A) v) (i - size_k A) = v)"
  have keep: "size_k (set_parameter A i v) = size_k A" if "i < size_k A"
    using set_parameter_fixed[of A i v] h that by simp
  show "get_parameter (set_parameter (Sum A B) i v) i = v"
    using h keep by (cases "i < size_k A") (simp_all add: Let_def)
  show "get_parameter (set_parameter (Product A B) i v) i = v"
    using h keep by (cases "i < size_k A") (simp_all add: Let_def)
qed (simp_all add: Let_def)

theorem Operator_parameter_routing_witness:
  "metrics_fixed A0 \<and>
   get_parameter (Sum A0 B0) 2 = get_parameter A0 2 \<and>
   get_parameter (Sum A0 B0) 4 = get_parameter B0 1 \<and>
   set_parameter (Product A0 B0) 4 42 = Product A0 (set_parameter B0 1 42) \<and>
   get_parameter (set_parameter A0 2 42) 2 = 42 \<and>
   get_parameter (set_parameter (Sum A0 B0) 2 42) 2 = 42 \<and>
   get_parameter (set_parameter B0 1 42) 1 = 42 \<and>
   get_parameter (set_parameter (Product A0 B0) 4 42) 4 = 42"
proof -
  have h: "metrics_fixed A0"
    by (simp add: A0_def metric_fixed_M0)
  have sz: "size_k A0 = 3"
    by (simp add: ex_defs)
  have a: "get_parameter (set_parameter A0 2 42) 2 = 42"
    by (simp add: ex_defs)
  have b: "get_parameter (set_parameter B0 1 42) 1 = 42"
    by (simp add: ex_defs)
  note left = Operator_parameter_routing[of A0 B0 2 42]
  note right = Operator_parameter_routing[of A0 B0 4 42]
  from left sz have c1: "get_parameter (Sum A0 B0) 2 = get_parameter A0 2"
    by simp
  from right sz have c2: "get_parameter (Sum A0 B0) 4 = get_parameter B0 1"
    by simp
  from right sz have c3: "set_parameter (Product A0 B0) 4 42 = Product A0 (set_parameter B0 1 42)"
    by simp
  from left sz h a have c4: "get_parameter (set_parameter (Sum A0 B0) 2 42) 2 = 42"
    by simp
  from right sz h b have c5: "get_parameter (set_parameter (Product A0 B0) 4 42) 4 = 42"
    by simp
  from h a b c1 c2 c3 c4 c5 show ?thesis
    by (simp only: simp_thms)
qed

text \<open>
  C6: the size of \<open>Sum A B\<close> and of \<open>Product A B\<close> is the size of \<open>A\<close> plus the size of
  \<open>B\<close>; the size of a stationary leaf is the number of its own hyperparameters plus the
  size of its metric; the size of an additive leaf is the number of its own
  hyperparameters. The sums are those of \<^verbatim>\<open>unsigned\<close>, as \<^verbatim>\<open>size()\<close> computes them.
\<close>

theorem size_k_additive_in_children:
  "size_k (Sum A B) = size_k A + size_k B \<and>
   size_k (Product A B) = size_k A + size_k B \<and>
   size_k (Stationary sp ps M) = of_nat (length ps) + Metric_size M \<and>
   size_k (Additive asp ps S) = of_nat (length ps)"
  by (simp add: Operator_size_def)

text \<open>
  C7: an additive kernel whose subspace selects no axis has the value \<open>0\<close>, and its
  \<^verbatim>\<open>gradient\<close> leaves \<open>0\<close> in each of the \<open>size()\<close> cells of the buffer, one per
  hyperparameter, whatever the inputs and the hyperparameters are.
\<close>

theorem Additive_zero_axes:
  fixes S :: "'w::len word subspace" and sp :: "'d::{zero,plus,times} additive_spec"
  assumes "get_naxes S = 0"
  shows "value_k (Additive sp ps S :: ('w word, 'm, 'd) kernel) x1 x2 = 0 \<and>
         (\<forall>j. j < unat (size_k (Additive sp ps S :: ('w word, 'm, 'd) kernel)) \<longrightarrow>
            gradient_k (Additive sp ps S :: ('w word, 'm, 'd) kernel) x1 x2 g s (g + j) = 0) \<and>
         (\<forall>j. j < length ps \<longrightarrow>
            gradient_k (Additive sp ps S :: ('w word, 'm, 'd) kernel) x1 x2 g s (g + j) = 0)"
proof (intro conjI allI impI)
  show "value_k (Additive sp ps S :: ('w word, 'm, 'd) kernel) x1 x2 = 0"
    using assms by (simp add: for_loop_stop)
next
  fix j
  assume "j < length ps"
  then show "gradient_k (Additive sp ps S :: ('w word, 'm, 'd) kernel) x1 x2 g s (g + j) = 0"
    using assms by (simp only: Additive_cell) (simp add: for_loop_stop)
next
  fix j
  assume "j < unat (size_k (Additive sp ps S :: ('w word, 'm, 'd) kernel))"
  then have "j < length ps"
    using unat_of_nat_le[of "length ps", where 'w = 'w] by simp
  then show "gradient_k (Additive sp ps S :: ('w word, 'm, 'd) kernel) x1 x2 g s (g + j) = 0"
    using assms by (simp only: Additive_cell) (simp add: for_loop_stop)
qed

theorem Additive_zero_axes_witness:
  "get_naxes S_empty = 0 \<and> size_k B_empty = 2 \<and>
   value_k B_empty x0 y0 = 0 \<and>
   gradient_k B_empty x0 y0 10 (\<lambda>a. 99) (10 + 0) = 0 \<and>
   gradient_k B_empty x0 y0 10 (\<lambda>a. 99) (10 + 1) = 0 \<and>
   gradient_k B_empty x0 y0 10 (\<lambda>a. 99) (10 + 2) = 99"
proof -
  have h: "get_naxes S_empty = 0"
    by (simp add: S_empty_def)
  have sz: "size_k B_empty = 2"
    by (simp add: B_empty_def)
  have out: "gradient_k B_empty x0 y0 10 (\<lambda>a. 99) (10 + 2) = 99"
    by (simp add: B_empty_def ex_eval)
  note zero = Additive_zero_axes[OF h, of asp0 "[7, 11]" x0 y0 10 "\<lambda>a. 99",
      where 'm = "int list", folded B_empty_def]
  from zero have v: "value_k B_empty x0 y0 = 0"
    by (rule conjunct1)
  have l: "(0 :: nat) < length [7, 11 :: int]" "(1 :: nat) < length [7, 11 :: int]"
    by simp_all
  from zero l(1) have c0: "gradient_k B_empty x0 y0 10 (\<lambda>a. 99) (10 + 0) = 0"
    by blast
  from zero l(2) have c1: "gradient_k B_empty x0 y0 10 (\<lambda>a. 99) (10 + 1) = 0"
    by blast
  from h sz v c0 c1 out show ?thesis
    by (simp only: simp_thms)
qed

text \<open>
  C8: in a kernel tree whose metrics keep the contract above, \<^verbatim>\<open>set_parameter(i, v)\<close> at
  an index \<open>i\<close> below \<^verbatim>\<open>size()\<close> changes neither \<^verbatim>\<open>size()\<close> nor \<^verbatim>\<open>get_ndim()\<close>, for the
  base kernel, both operators and both leaves; the updated tree keeps the contract, so
  the same holds after any number of such calls.
\<close>

theorem set_parameter_keeps_size_ndim:
  fixes k :: "('w::len word, 'm, 'd) kernel"
  assumes "metrics_fixed k" and "i < size_k k"
  shows "size_k (set_parameter k i v) = size_k k \<and>
         get_ndim (set_parameter k i v) = get_ndim k \<and>
         metrics_fixed (set_parameter k i v)"
  using assms by (rule set_parameter_fixed)

theorem set_parameter_keeps_size_ndim_witness:
  "metrics_fixed (Product A0 B0) \<and> (2 :: 32 word) < size_k (Product A0 B0) \<and>
   size_k (Product A0 B0) = 5 \<and> size_k (set_parameter (Product A0 B0) 2 42) = 5 \<and>
   get_ndim (Product A0 B0) = 2 \<and> get_ndim (set_parameter (Product A0 B0) 2 42) = 2 \<and>
   get_parameter (Product A0 B0) 2 = 3 \<and>
   get_parameter (set_parameter (Product A0 B0) 2 42) 2 = 42"
proof -
  have h1: "metrics_fixed (Product A0 B0)"
    by (simp add: A0_def B0_def metric_fixed_M0)
  have h2: "(2 :: 32 word) < size_k (Product A0 B0)"
    by (simp add: ex_defs)
  have s: "size_k (Product A0 B0) = 5" and d: "get_ndim (Product A0 B0) = 2"
    by (simp_all add: ex_defs)
  have g: "get_parameter (Product A0 B0) 2 = 3"
    "get_parameter (set_parameter (Product A0 B0) 2 42) 2 = 42"
    by (simp_all add: ex_defs Let_def)
  from set_parameter_keeps_size_ndim[OF h1 h2, of 42] h1 h2 s d g show ?thesis
    by simp
qed

text \<open>
  C9: the dimension of \<open>Sum A B\<close> and of \<open>Product A B\<close> is the dimension of the left
  child, whatever the dimension of the right child is: the constructors accept any two
  kernels, and neither \<open>get_ndim\<close> nor the evaluation compares the two dimensions.
\<close>

theorem get_ndim_Operator_left:
  "get_ndim (Sum A B) = get_ndim A \<and> get_ndim (Product A B) = get_ndim A"
  by simp

text \<open>
  An operator over children of different dimensions: it is built, reports the dimension
  of its left child and evaluates.
\<close>

lemma Operator_ndim_mismatch_example:
  "get_ndim A0 = 2 \<and> get_ndim B3 = 3 \<and>
   get_ndim (Sum A0 B3) = 2 \<and> get_ndim (Product B3 A0) = 3 \<and>
   value_k (Sum A0 B3) x0 y0 = 175 + 71"
  by (simp add: ex_eval B3_def)

text \<open>
  C10: for an additive kernel with \<open>k\<close> hyperparameters and an index \<open>i \<ge> k\<close>,
  \<^verbatim>\<open>get_parameter(i)\<close> returns \<open>0\<close> and \<^verbatim>\<open>set_parameter(i, v)\<close> returns the object as it
  was, so that every later \<^verbatim>\<open>get_parameter\<close> and \<^verbatim>\<open>value\<close> is unchanged.
\<close>

theorem Additive_parameter_out_of_range:
  fixes S :: "'w::len word subspace" and sp :: "'d::{zero,plus,times} additive_spec"
    and i :: "'w word"
  assumes "length ps \<le> unat i"
  shows "get_parameter (Additive sp ps S :: ('w word, 'm, 'd) kernel) i = 0 \<and>
         set_parameter (Additive sp ps S :: ('w word, 'm, 'd) kernel) i v = Additive sp ps S \<and>
         (\<forall>i'. get_parameter
                 (set_parameter (Additive sp ps S :: ('w word, 'm, 'd) kernel) i v) i' =
               get_parameter (Additive sp ps S :: ('w word, 'm, 'd) kernel) i') \<and>
         (\<forall>x1 x2. value_k
                 (set_parameter (Additive sp ps S :: ('w word, 'm, 'd) kernel) i v) x1 x2 =
               value_k (Additive sp ps S :: ('w word, 'm, 'd) kernel) x1 x2)"
proof -
  from assms have "get_own i 0 ps = None" and "set_own i 0 v ps = None"
    by (simp_all add: get_own_None set_own_None)
  then show ?thesis by simp
qed

theorem Additive_parameter_out_of_range_witness:
  "length [7, 11 :: int] \<le> unat (2 :: 32 word) \<and>
   get_parameter B0 1 = 11 \<and> get_parameter B0 2 = 0 \<and>
   set_parameter B0 2 42 = B0 \<and> set_parameter B0 1 42 \<noteq> B0"
proof -
  have h: "length [7, 11 :: int] \<le> unat (2 :: 32 word)"
    by simp
  have inside: "get_parameter B0 1 = 11" "set_parameter B0 1 42 \<noteq> B0"
    by (simp_all add: B0_def)
  from Additive_parameter_out_of_range[OF h, of asp0 S0 42] h inside show ?thesis
    by (simp add: B0_def)
qed

end
